theory Spec2Isabelle
  imports Main
begin

section \<open>Values shared by the language-server modules\<close>

text \<open>
  A thrown JavaScript value. What a promise does: it is fulfilled with a value, it is
  rejected with a thrown value, or it never settles.
\<close>

datatype exn = Exn string

datatype 'a outcome = Resolved 'a | Rejected exn | Pending

text \<open>
  \<^verbatim>\<open>Promise.all\<close> over promises that run concurrently. Each promise is paired with
  the tick at which it settles (meaningless for a promise that never does). The result is
  rejected with the reason of the promise that rejects first in time, whatever the others
  do; it is fulfilled with the values in the order of the input array when every promise is
  fulfilled; it never settles otherwise.
\<close>

fun first_rejected :: "(nat \<times> 'a outcome) list \<Rightarrow> (nat \<times> exn) option" where
  "first_rejected [] = None"
| "first_rejected ((t, Rejected e) # ps) =
     (case first_rejected ps of
        None \<Rightarrow> Some (t, e)
      | Some (t', e') \<Rightarrow> if t' < t then Some (t', e') else Some (t, e))"
| "first_rejected ((t, Resolved v) # ps) = first_rejected ps"
| "first_rejected ((t, Pending) # ps) = first_rejected ps"

fun fulfilled_values :: "(nat \<times> 'a outcome) list \<Rightarrow> 'a list option" where
  "fulfilled_values [] = Some []"
| "fulfilled_values ((t, Resolved v) # ps) = map_option ((#) v) (fulfilled_values ps)"
| "fulfilled_values ((t, Rejected e) # ps) = None"
| "fulfilled_values ((t, Pending) # ps) = None"

definition Promise_all :: "(nat \<times> 'a outcome) list \<Rightarrow> 'a list outcome" where
  "Promise_all ps =
     (case first_rejected ps of
        Some (t, e) \<Rightarrow> Rejected e
      | None \<Rightarrow> (case fulfilled_values ps of Some vs \<Rightarrow> Resolved vs | None \<Rightarrow> Pending))"

section \<open>validateGraphql.ts\<close>

subsection \<open>Data\<close>

text \<open>
  The \<^verbatim>\<open>locationOffset\<close> of a plucked GraphQL \<^verbatim>\<open>Source\<close>, the
  \<^verbatim>\<open>Source\<close> itself (field \<^verbatim>\<open>name\<close> is written \<open>sourceName\<close>), the
  language server's \<^verbatim>\<open>Position\<close>, \<^verbatim>\<open>Range\<close> and \<^verbatim>\<open>Diagnostic\<close>
  (fields \<^verbatim>\<open>end\<close> and \<^verbatim>\<open>range\<close> are written \<open>end'\<close> and \<open>range'\<close>), and a
  \<^verbatim>\<open>TextDocument\<close>, whose \<^verbatim>\<open>getText()\<close> is the field \<open>content\<close>. Line and
  column numbers are JavaScript numbers holding integers.
\<close>

record Location =
  line :: int
  column :: int

record Source =
  body :: string
  sourceName :: string
  locationOffset :: Location

record Position =
  line :: int
  character :: int

record Range =
  start :: Position
  end' :: Position

record Diagnostic =
  range' :: Range
  severity :: "int option"
  message :: string
  data :: string

record TextDocument =
  uri :: string
  languageId :: string
  version :: int
  content :: string

record PluckOptions =
  skipIndent :: bool
  globalGqlIdentifierName :: "string list"

subsection \<open>The collaborators\<close>

text \<open>
  Three collaborators are library or rule code outside this module and are parameters of
  the model. \<open>pluck\<close> is \<^verbatim>\<open>gqlPluckFromCodeStringSync(uri, text, options)\<close>: it returns
  the plucked sources and, like any call, may throw. \<open>parse\<close> is the GraphQL parser, which
  throws on a syntax error. A producer's \<^verbatim>\<open>validateDocument\<close> returns a promise:
  the tick at which it settles and how it settles.
\<close>

type_synonym Extractor = "string \<Rightarrow> string \<Rightarrow> PluckOptions \<Rightarrow> exn + Source list"

type_synonym 'ast Parser = "string \<Rightarrow> exn + 'ast"

type_synonym 'ast DiagnosticProducer =
  "TextDocument \<Rightarrow> 'ast \<Rightarrow> nat \<times> Diagnostic list outcome"

subsection \<open>updateDiagnosticOffset\<close>

text \<open>
  Both tests on the line are made before either line is changed. The source updates the
  two positions in place; the model returns the updated diagnostic. The two positions of a
  range are taken to be two objects, and the diagnostics that the rules return to be
  objects of their own, as the constructors of the language-server library make them.
\<close>

definition updateDiagnosticOffset :: "Diagnostic \<Rightarrow> int \<Rightarrow> int \<Rightarrow> Diagnostic" where
  "updateDiagnosticOffset diagnostic lineOffset columnOffset =
     (let start0 = start (range' diagnostic);
          end0 = end' (range' diagnostic);
          start1 = (if Position.line start0 = 0
                    then start0\<lparr>character := character start0 + columnOffset\<rparr> else start0);
          end1 = (if Position.line end0 = 0
                  then end0\<lparr>character := character end0 + columnOffset\<rparr> else end0);
          start2 = start1\<lparr>Position.line := Position.line start1 + lineOffset\<rparr>;
          end2 = end1\<lparr>Position.line := Position.line end1 + lineOffset\<rparr>
      in diagnostic\<lparr>range' := \<lparr>start = start2, end' = end2\<rparr>\<rparr>)"

subsection \<open>validateOneGraphQuery\<close>

text \<open>
  The \<^verbatim>\<open>try\<close> block covers the parse and the awaited \<^verbatim>\<open>Promise.all\<close>; the
  \<^verbatim>\<open>catch\<close> block is empty and falls through to \<^verbatim>\<open>return []\<close>.
\<close>

definition validateOneGraphQuery ::
  "'ast Parser \<Rightarrow> 'ast DiagnosticProducer list \<Rightarrow> TextDocument \<Rightarrow> string
     \<Rightarrow> Diagnostic list outcome" where
  "validateOneGraphQuery parse diagnosticProducers textDocument graphql =
     (case parse graphql of
        Inl e \<Rightarrow> Resolved []
      | Inr graphqlAstNode \<Rightarrow>
          (case Promise_all
                  (map (\<lambda>producer. producer textDocument graphqlAstNode) diagnosticProducers) of
             Resolved allResults \<Rightarrow> Resolved (concat allResults)
           | Rejected e \<Rightarrow> Resolved []
           | Pending \<Rightarrow> Pending))"

subsection \<open>validateGraphql\<close>

text \<open>
  The inner loop over the diagnostics of one query, and the outer loop over the queries.
  \<open>maxCount\<close> is a JavaScript number holding an integer. A \<^verbatim>\<open>break\<close> of the inner
  loop goes on with the next query, where the outer test ends the pass.
\<close>

fun appendDiagnostics ::
  "int \<Rightarrow> int \<Rightarrow> int \<Rightarrow> Diagnostic list \<Rightarrow> Diagnostic list \<Rightarrow> Diagnostic list" where
  "appendDiagnostics maxCount lineOffset columnOffset results [] = results"
| "appendDiagnostics maxCount lineOffset columnOffset results (item # items) =
     (if int (length results) \<ge> maxCount then results
      else appendDiagnostics maxCount lineOffset columnOffset
             (results @ [updateDiagnosticOffset item lineOffset columnOffset]) items)"

text \<open>
  The position of the first character of a fragment in the document, which is the
  LocationOffset of the specification. Lines 48 and 49 compute it, as \<^verbatim>\<open>lineOffset\<close>
  and \<^verbatim>\<open>columnOffset\<close>, from the \<^verbatim>\<open>locationOffset\<close> of the library, whose line
  counts from 1 and whose column is that of the opening backtick.
\<close>

definition fragmentStart :: "Source \<Rightarrow> Position" where
  "fragmentStart query =
     \<lparr>Position.line = Location.line (locationOffset query) - 1,
      character = column (locationOffset query) + 1\<rparr>"

definition graphqlTextDocument :: "Source \<Rightarrow> TextDocument" where
  "graphqlTextDocument query =
     \<lparr>uri = [], languageId = ''graphql'', version = 1, content = body query\<rparr>"

fun validateQueries ::
  "'ast Parser \<Rightarrow> 'ast DiagnosticProducer list \<Rightarrow> int \<Rightarrow> Diagnostic list \<Rightarrow> Source list
     \<Rightarrow> Diagnostic list outcome" where
  "validateQueries parse diagnosticProducers maxCount results [] = Resolved results"
| "validateQueries parse diagnosticProducers maxCount results (query # queries) =
     (if int (length results) \<ge> maxCount then Resolved results
      else
        (let lineOffset = Location.line (locationOffset query) - 1;
             columnOffset = column (locationOffset query) + 1
         in case validateOneGraphQuery parse diagnosticProducers
                   (graphqlTextDocument query) (body query) of
              Resolved diagnostics \<Rightarrow>
                validateQueries parse diagnosticProducers maxCount
                  (appendDiagnostics maxCount lineOffset columnOffset results diagnostics)
                  queries
            | Rejected e \<Rightarrow> Rejected e
            | Pending \<Rightarrow> Pending))"

definition pluckOptions :: PluckOptions where
  "pluckOptions = \<lparr>skipIndent = True, globalGqlIdentifierName = [''gql'', ''graphql'']\<rparr>"

definition validateGraphql ::
  "Extractor \<Rightarrow> 'ast Parser \<Rightarrow> 'ast DiagnosticProducer list \<Rightarrow> TextDocument \<Rightarrow> int
     \<Rightarrow> Diagnostic list outcome" where
  "validateGraphql pluck parse diagnosticProducers textDocument maxCount =
     (if maxCount \<le> 0 \<or> length diagnosticProducers = 0 then Resolved []
      else
        (case pluck (uri textDocument) (content textDocument) pluckOptions of
           Inl e \<Rightarrow> Rejected e
         | Inr graphQueries \<Rightarrow>
             validateQueries parse diagnosticProducers maxCount [] graphQueries))"

subsection \<open>The order the specification asks for\<close>

text \<open>
  Written from the specification's words, for comparison with \<open>validateGraphql\<close>: the
  findings of one rule in the order the rule emitted them; the findings of one fragment,
  rule after rule in registry order, translated to the document's coordinates; fragment
  after fragment in discovery order, cut at the cap. A fragment that does not parse, or one
  of whose rules is not fulfilled, contributes nothing.
\<close>

fun isResolved :: "'a outcome \<Rightarrow> bool" where
  "isResolved (Resolved v) = True"
| "isResolved (Rejected e) = False"
| "isResolved Pending = False"

fun isRejected :: "'a outcome \<Rightarrow> bool" where
  "isRejected (Resolved v) = False"
| "isRejected (Rejected e) = True"
| "isRejected Pending = False"

definition ruleFindings ::
  "'ast DiagnosticProducer \<Rightarrow> TextDocument \<Rightarrow> 'ast \<Rightarrow> Diagnostic list" where
  "ruleFindings producer doc ast =
     (case snd (producer doc ast) of Resolved ds \<Rightarrow> ds | Rejected e \<Rightarrow> [] | Pending \<Rightarrow> [])"

definition remap :: "Source \<Rightarrow> Diagnostic \<Rightarrow> Diagnostic" where
  "remap query d =
     updateDiagnosticOffset d (Location.line (locationOffset query) - 1)
       (column (locationOffset query) + 1)"

definition fragmentFindings ::
  "'ast Parser \<Rightarrow> 'ast DiagnosticProducer list \<Rightarrow> Source \<Rightarrow> Diagnostic list" where
  "fragmentFindings parse producers query =
     (case parse (body query) of
        Inl e \<Rightarrow> []
      | Inr ast \<Rightarrow>
          if list_all (\<lambda>p. isResolved (snd (p (graphqlTextDocument query) ast))) producers
          then map (remap query)
                 (concat (map (\<lambda>p. ruleFindings p (graphqlTextDocument query) ast) producers))
          else [])"

definition documentFindings ::
  "'ast Parser \<Rightarrow> 'ast DiagnosticProducer list \<Rightarrow> int \<Rightarrow> Source list \<Rightarrow> Diagnostic list" where
  "documentFindings parse producers maxCount queries =
     take (nat maxCount) (concat (map (fragmentFindings parse producers) queries))"

section \<open>orgUtils.ts\<close>

subsection \<open>Data\<close>

datatype ConnectionStatus = UNKNOWN | CONNECTED | DISCONNECTED

text \<open>
  A \<^verbatim>\<open>Connection\<close> of the Salesforce library, as far as this module reads it: the
  results of \<^verbatim>\<open>getUsername()\<close> and \<^verbatim>\<open>baseUrl()\<close>.
\<close>

record Connection =
  getUsername :: "string option"
  baseUrl :: string

text \<open>
  Modelled from the spec: the type \<^verbatim>\<open>ObjectInfoRepresentation\<close> of the module
  \<^verbatim>\<open>types\<close>, which is not among the sources. The specification says that it
  carries field name to type mappings for one named entity.
\<close>

record ObjectInfoRepresentation =
  apiName :: string
  fieldTypes :: "(string \<times> string) list"

text \<open>
  The promise made by \<open>getObjectInfo\<close> for a network load: the object it loads and how
  far its executor has come. The executor waits for the connection, then for the response;
  it resolves the promise, or ends without resolving it.
\<close>

datatype PromisePhase =
    AwaitingConnection
  | AwaitingResponse Connection
  | Settled "ObjectInfoRepresentation option"
  | NeverSettles

record NetworkPromise =
  forObject :: string
  phase :: PromisePhase

text \<open>
  The static fields of the class \<^verbatim>\<open>OrgUtils\<close>, followed by the world they act on:
  the files and folders on disk, the promises made so far (a promise is named by its
  number, \<open>promiseCount\<close> being the next one), and the URLs requested so far.
\<close>

record OrgUtils =
  orgName :: string
  connection :: "Connection option"
  connectStatus :: ConnectionStatus
  objectInfoInMemoCache :: "string \<rightharpoonup> ObjectInfoRepresentation"
  objectInfoPromises :: "string \<rightharpoonup> nat"
  entities :: "string list"
  disk :: "string \<rightharpoonup> string"
  folders :: "string set"
  promiseStore :: "nat \<rightharpoonup> NetworkPromise"
  promiseCount :: nat
  requests :: "string list"

text \<open>
  The collaborators outside the module: the configuration aggregator (the target org, or a
  failure), the alias lookup of the state aggregator, the creation of a connection from a
  user name, the two network calls of a connection, the workspace folder of the server's
  \<^verbatim>\<open>WorkspaceUtils\<close> (which throws when there is none), and \<^verbatim>\<open>JSON\<close>.
\<close>

record Env =
  targetOrg :: "exn + string option"
  aliasUsername :: "string \<Rightarrow> exn + string option"
  createConnection :: "string \<Rightarrow> exn + Connection"
  describeGlobal :: "Connection \<Rightarrow> exn + string list"
  request :: "Connection \<Rightarrow> string \<Rightarrow> exn + ObjectInfoRepresentation option"
  getWorkspaceDir :: "exn + string"
  stringifyEntities :: "string list \<Rightarrow> string"
  parseEntities :: "string \<Rightarrow> exn + string list"
  stringifyObjectInfo :: "ObjectInfoRepresentation \<Rightarrow> string"
  parseObjectInfo :: "string \<Rightarrow> exn + ObjectInfoRepresentation"

definition objectInfoFolder :: string where
  "objectInfoFolder = ''objectInfos''"

definition entityListFileName :: string where
  "entityListFileName = ''entity_list.json''"

definition sfFolder :: string where
  "sfFolder = ''.sf''"

text \<open>\<^verbatim>\<open>path.posix.join\<close> on segments that need no normalising: empty segments are
  dropped and the others are joined by a slash.\<close>

fun joinSegments :: "string list \<Rightarrow> string" where
  "joinSegments [] = []"
| "joinSegments [x] = x"
| "joinSegments (x # y # ys) = x @ ''/'' @ joinSegments (y # ys)"

definition joinPath :: "string list \<Rightarrow> string" where
  "joinPath segments = joinSegments (filter (\<lambda>x. x \<noteq> []) segments)"

subsection \<open>Session and connection\<close>

definition getDefaultOrg :: "Env \<Rightarrow> OrgUtils \<Rightarrow> (exn + string) \<times> OrgUtils" where
  "getDefaultOrg env st =
     (case targetOrg env of
        Inl e \<Rightarrow> (Inl e, st)
      | Inr None \<Rightarrow> (Inl (Exn ''no org''), st)
      | Inr (Some v) \<Rightarrow>
          if v \<noteq> [] then (Inr v, st\<lparr>orgName := v\<rparr>) else (Inl (Exn ''no org''), st))"

text \<open>Every failure is caught and gives \<^verbatim>\<open>undefined\<close>, as does an alias that is
  \<^verbatim>\<open>null\<close>.\<close>

definition getDefaultUserName :: "Env \<Rightarrow> OrgUtils \<Rightarrow> string option \<times> OrgUtils" where
  "getDefaultUserName env st =
     (case getDefaultOrg env st of
        (Inl e, st1) \<Rightarrow> (None, st1)
      | (Inr org, st1) \<Rightarrow>
          (case aliasUsername env org of
             Inl e \<Rightarrow> (None, st1)
           | Inr username \<Rightarrow> (username, st1)))"

definition getConnection :: "Env \<Rightarrow> OrgUtils \<Rightarrow> Connection option \<times> OrgUtils" where
  "getConnection env st =
     (if connection st \<noteq> None \<and> getUsername (the (connection st)) \<noteq> None
      then (connection st, st)
      else
        (case getDefaultUserName env st of
           (None, st1) \<Rightarrow> (None, st1)
         | (Some username, st1) \<Rightarrow>
             (case createConnection env username of
                Inl e \<Rightarrow> (None, st1\<lparr>connection := None\<rparr>)
              | Inr connect \<Rightarrow>
                  (Some connect,
                   if getUsername connect \<noteq> None then st1\<lparr>connection := Some connect\<rparr>
                   else st1))))"

definition objectInfoFolderPath :: "Env \<Rightarrow> OrgUtils \<Rightarrow> (exn + string) \<times> OrgUtils" where
  "objectInfoFolderPath env st =
     (case getWorkspaceDir env of
        Inl e \<Rightarrow> (Inl e, st)
      | Inr projectPath \<Rightarrow>
          (let folder = joinPath [projectPath, sfFolder, orgName st, objectInfoFolder]
           in (Inr folder,
               if folder \<notin> folders st then st\<lparr>folders := insert folder (folders st)\<rparr>
               else st)))"

text \<open>
  \<open>checkAuthStatus\<close>. The status is set to \<open>CONNECTED\<close> before the entity list is
  read or fetched, and nothing here catches a failure of that step. The entity list is
  fetched through the field \<^verbatim>\<open>this.connection\<close>, which \<open>getConnection\<close> leaves
  unset for a connection without a user name: the call on \<^verbatim>\<open>undefined\<close> throws.
\<close>

definition checkAuthStatus :: "Env \<Rightarrow> OrgUtils \<Rightarrow> ConnectionStatus outcome \<times> OrgUtils" where
  "checkAuthStatus env st =
     (if connectStatus st \<noteq> UNKNOWN then (Resolved (connectStatus st), st)
      else
        (case getConnection env st of
           (None, st1) \<Rightarrow> (Resolved DISCONNECTED, st1\<lparr>connectStatus := DISCONNECTED\<rparr>)
         | (Some c, st1) \<Rightarrow>
             (case objectInfoFolderPath env (st1\<lparr>connectStatus := CONNECTED\<rparr>) of
                (Inl e, st2) \<Rightarrow> (Rejected e, st2)
              | (Inr folder, st2) \<Rightarrow>
                  (let entityListFile = joinPath [folder, entityListFileName]
                   in case disk st2 entityListFile of
                        None \<Rightarrow>
                          (case connection st2 of
                             None \<Rightarrow> (Rejected (Exn ''TypeError''), st2)
                           | Some conn \<Rightarrow>
                               (case describeGlobal env conn of
                                  Inl e \<Rightarrow> (Rejected e, st2)
                                | Inr objectList \<Rightarrow>
                                    (Resolved CONNECTED,
                                     st2\<lparr>entities := objectList,
                                         disk := (disk st2)
                                           (entityListFile \<mapsto>
                                              stringifyEntities env objectList)\<rparr>)))
                      | Some entityContent \<Rightarrow>
                          (case parseEntities env entityContent of
                             Inl e \<Rightarrow> (Rejected e, st2)
                           | Inr objectList \<Rightarrow>
                               (Resolved CONNECTED, st2\<lparr>entities := objectList\<rparr>))))))"

subsection \<open>The reset on a change of org\<close>




subsection \<open>The two caches\<close>

definition fetchObjectInfoFromDisk ::
  "Env \<Rightarrow> string \<Rightarrow> OrgUtils \<Rightarrow> (exn + ObjectInfoRepresentation option) \<times> OrgUtils" where
  "fetchObjectInfoFromDisk env objectApiName st =
     (case objectInfoFolderPath env st of
        (Inl e, st1) \<Rightarrow> (Inl e, st1)
      | (Inr folder, st1) \<Rightarrow>
          (let objectInfoJsonFile = joinPath [folder, objectApiName @ ''.json'']
           in case disk st1 objectInfoJsonFile of
                None \<Rightarrow> (Inr None, st1)
              | Some objectInfoStr \<Rightarrow>
                  (case parseObjectInfo env objectInfoStr of
                     Inl e \<Rightarrow> (Inl e, st1)
                   | Inr objectInfo \<Rightarrow> (Inr (Some objectInfo), st1))))"

definition getObjectInfoFromCache ::
  "Env \<Rightarrow> string \<Rightarrow> OrgUtils \<Rightarrow> (exn + ObjectInfoRepresentation option) \<times> OrgUtils" where
  "getObjectInfoFromCache env objectApiName st =
     (case objectInfoInMemoCache st objectApiName of
        Some objectInfo \<Rightarrow> (Inr (Some objectInfo), st)
      | None \<Rightarrow>
          (case fetchObjectInfoFromDisk env objectApiName st of
             (Inl e, st1) \<Rightarrow> (Inl e, st1)
           | (Inr (Some objectInfo), st1) \<Rightarrow>
               (Inr (Some objectInfo),
                st1\<lparr>objectInfoInMemoCache :=
                      (objectInfoInMemoCache st1)(objectApiName \<mapsto> objectInfo)\<rparr>)
           | (Inr None, st1) \<Rightarrow> (Inr None, st1)))"

definition objectInfoResponseCallback ::
  "Env \<Rightarrow> string \<Rightarrow> ObjectInfoRepresentation \<Rightarrow> OrgUtils \<Rightarrow> (exn + unit) \<times> OrgUtils" where
  "objectInfoResponseCallback env objectApiName objectInfo st =
     (let st1 = st\<lparr>objectInfoInMemoCache :=
                     (objectInfoInMemoCache st)(objectApiName \<mapsto> objectInfo)\<rparr>;
          objectInfoStr = stringifyObjectInfo env objectInfo
      in case objectInfoFolderPath env st1 of
           (Inl e, st2) \<Rightarrow> (Inl e, st2)
         | (Inr folder, st2) \<Rightarrow>
             (let objectInfoFile = joinPath [folder, objectApiName @ ''.json''];
                  unlinked = (if disk st2 objectInfoFile \<noteq> None
                              then (disk st2)(objectInfoFile := None) else disk st2)
              in (Inr (), st2\<lparr>disk := unlinked(objectInfoFile \<mapsto> objectInfoStr)\<rparr>)))"

subsection \<open>getObjectInfo\<close>

text \<open>
  \<open>getObjectInfo\<close> runs in pieces, each of which runs to its end before anything else
  does; other calls may run between two pieces.

  The first piece after the status check (lines 236 to 277) is \<open>getObjectInfoLookup\<close>:
  it returns a cached value, or throws what the cache lookup throws, or returns the promise
  found in \<open>objectInfoPromises\<close>, or makes a new promise, whose executor starts waiting
  for the connection, and stores it under the object's name.
\<close>

datatype Returned =
    Value "ObjectInfoRepresentation option"
  | Thrown exn
  | PromiseOf nat

definition getObjectInfoLookup :: "Env \<Rightarrow> string \<Rightarrow> OrgUtils \<Rightarrow> Returned \<times> OrgUtils" where
  "getObjectInfoLookup env objectApiName st =
     (case getObjectInfoFromCache env objectApiName st of
        (Inl e, st1) \<Rightarrow> (Thrown e, st1)
      | (Inr (Some objectInfo), st1) \<Rightarrow> (Value (Some objectInfo), st1)
      | (Inr None, st1) \<Rightarrow>
          (case objectInfoPromises st1 objectApiName of
             Some p \<Rightarrow> (PromiseOf p, st1)
           | None \<Rightarrow>
               (let p = promiseCount st1
                in (PromiseOf p,
                    st1\<lparr>promiseCount := Suc p,
                        promiseStore := (promiseStore st1)
                          (p \<mapsto> \<lparr>forObject = objectApiName, phase = AwaitingConnection\<rparr>),
                        objectInfoPromises := (objectInfoPromises st1)(objectApiName \<mapsto> p)\<rparr>))))"

text \<open>
  The executor of promise \<open>p\<close> goes on when the connection has arrived: with a connection
  and an object of the entity list it sends the request; otherwise it ends, and nothing
  resolves the promise. Its whole call of \<open>getConnection\<close> is placed in this piece.
\<close>

definition objectInfoUrl :: "Connection \<Rightarrow> string \<Rightarrow> string" where
  "objectInfoUrl conn objectApiName = baseUrl conn @ ''/ui-api/object-info/'' @ objectApiName"

definition executorConnected :: "Env \<Rightarrow> nat \<Rightarrow> OrgUtils \<Rightarrow> OrgUtils" where
  "executorConnected env p st =
     (case promiseStore st p of
        None \<Rightarrow> st
      | Some pr \<Rightarrow>
          (case phase pr of
             AwaitingConnection \<Rightarrow>
               (case getConnection env st of
                  (None, st1) \<Rightarrow>
                    st1\<lparr>promiseStore := (promiseStore st1)(p \<mapsto> pr\<lparr>phase := NeverSettles\<rparr>)\<rparr>
                | (Some conn, st1) \<Rightarrow>
                    if forObject pr \<in> set (entities st1)
                    then st1\<lparr>promiseStore :=
                               (promiseStore st1)(p \<mapsto> pr\<lparr>phase := AwaitingResponse conn\<rparr>),
                             requests := requests st1 @ [objectInfoUrl conn (forObject pr)]\<rparr>
                    else st1\<lparr>promiseStore :=
                               (promiseStore st1)(p \<mapsto> pr\<lparr>phase := NeverSettles\<rparr>)\<rparr>)
           | AwaitingResponse conn \<Rightarrow> st
           | Settled v \<Rightarrow> st
           | NeverSettles \<Rightarrow> st))"

text \<open>
  The executor of promise \<open>p\<close> goes on when the request has settled. A failed request
  resolves the promise with \<^verbatim>\<open>undefined\<close>; a response is stored by the callback,
  whose failure is caught in the same way, and resolves the promise. Then
  \<^verbatim>\<open>finally\<close> deletes the entry of the object's name in \<open>objectInfoPromises\<close>.
  The promise stored in \<open>objectInfoPromises\<close> is the one \<^verbatim>\<open>finally\<close> returns,
  which settles after the deletion, so both are placed in this piece.
\<close>

definition executorResponded ::
  "Env \<Rightarrow> nat \<Rightarrow> exn + ObjectInfoRepresentation option \<Rightarrow> OrgUtils \<Rightarrow> OrgUtils" where
  "executorResponded env p response st =
     (case promiseStore st p of
        None \<Rightarrow> st
      | Some pr \<Rightarrow>
          (case phase pr of
             AwaitingResponse conn \<Rightarrow>
               (let (resolved, st1) =
                      (case response of
                         Inl e \<Rightarrow> (None, st)
                       | Inr None \<Rightarrow> (None, st)
                       | Inr (Some objectInfo) \<Rightarrow>
                           (case objectInfoResponseCallback env (forObject pr) objectInfo st of
                              (Inl e, st') \<Rightarrow> (None, st')
                            | (Inr u, st') \<Rightarrow> (Some objectInfo, st')))
                in st1\<lparr>promiseStore := (promiseStore st1)(p \<mapsto> pr\<lparr>phase := Settled resolved\<rparr>),
                       objectInfoPromises := (objectInfoPromises st1)(forObject pr := None)\<rparr>)
           | AwaitingConnection \<Rightarrow> st
           | Settled v \<Rightarrow> st
           | NeverSettles \<Rightarrow> st))"

definition promiseOutcome :: "OrgUtils \<Rightarrow> nat \<Rightarrow> ObjectInfoRepresentation option outcome" where
  "promiseOutcome st p =
     (case promiseStore st p of
        None \<Rightarrow> Pending
      | Some pr \<Rightarrow>
          (case phase pr of
             Settled v \<Rightarrow> Resolved v
           | AwaitingConnection \<Rightarrow> Pending
           | AwaitingResponse conn \<Rightarrow> Pending
           | NeverSettles \<Rightarrow> Pending))"

text \<open>
  One call of \<open>getObjectInfo\<close> with nothing running in between: the status check, the
  lookup, and, when the call returns a promise, the executor of that promise run as far as
  it goes, the network answering as \<open>request env\<close> says.
\<close>

definition runPromise :: "Env \<Rightarrow> nat \<Rightarrow> OrgUtils \<Rightarrow> OrgUtils" where
  "runPromise env p st =
     (let st1 = executorConnected env p st
      in case promiseStore st1 p of
           None \<Rightarrow> st1
         | Some pr \<Rightarrow>
             (case phase pr of
                AwaitingResponse conn \<Rightarrow>
                  executorResponded env p
                    (request env conn (objectInfoUrl conn (forObject pr))) st1
              | AwaitingConnection \<Rightarrow> st1
              | Settled v \<Rightarrow> st1
              | NeverSettles \<Rightarrow> st1))"

definition getObjectInfo ::
  "Env \<Rightarrow> string \<Rightarrow> OrgUtils \<Rightarrow> ObjectInfoRepresentation option outcome \<times> OrgUtils" where
  "getObjectInfo env objectApiName st =
     (case checkAuthStatus env st of
        (Rejected e, st1) \<Rightarrow> (Rejected e, st1)
      | (Pending, st1) \<Rightarrow> (Pending, st1)
      | (Resolved status, st1) \<Rightarrow>
          if status \<noteq> CONNECTED then (Resolved None, st1)
          else
            (case getObjectInfoLookup env objectApiName st1 of
               (Value v, st2) \<Rightarrow> (Resolved v, st2)
             | (Thrown e, st2) \<Rightarrow> (Rejected e, st2)
             | (PromiseOf p, st2) \<Rightarrow>
                 (let st3 = runPromise env p st2 in (promiseOutcome st3 p, st3))))"




definition initialOrgUtils :: OrgUtils where
  "initialOrgUtils =
     \<lparr>orgName = [], connection = None, connectStatus = UNKNOWN,
      objectInfoInMemoCache = Map.empty, objectInfoPromises = Map.empty, entities = [],
      disk = Map.empty, folders = {}, promiseStore = Map.empty, promiseCount = 0,
      requests = []\<rparr>"

subsection \<open>Promises in flight\<close>


definition promisesOf :: "OrgUtils \<Rightarrow> (nat \<rightharpoonup> NetworkPromise) \<times> (string \<rightharpoonup> nat) \<times> nat \<times> string list" where
  "promisesOf st = (promiseStore st, objectInfoPromises st, promiseCount st, requests st)"




section \<open>Example inputs\<close>

text \<open>
  Concrete documents, fragments, rules and collaborators on which the theorems below are
  run. The example parser takes the syntax tree to be the query text and fails on a lone
  opening brace.
\<close>

definition finding :: "int \<Rightarrow> int \<Rightarrow> int \<Rightarrow> int \<Rightarrow> Diagnostic" where
  "finding l1 c1 l2 c2 =
     \<lparr>range' = \<lparr>start = \<lparr>Position.line = l1, character = c1\<rparr>,
                end' = \<lparr>Position.line = l2, character = c2\<rparr>\<rparr>,
      severity = Some 2, message = ''misspelled'', data = ''misspelled-uiapi''\<rparr>"

definition fragmentAt :: "string \<Rightarrow> int \<Rightarrow> int \<Rightarrow> Source" where
  "fragmentAt b l c =
     \<lparr>body = b, sourceName = ''file.js'', locationOffset = \<lparr>Location.line = l, column = c\<rparr>\<rparr>"

definition exampleParse :: "string Parser" where
  "exampleParse graphql =
     (if graphql = ''{'' then Inl (Exn ''Syntax Error'') else Inr graphql)"

definition plucks :: "Source list \<Rightarrow> Extractor" where
  "plucks queries = (\<lambda>u t options. Inr queries)"

definition pluckThrows :: Extractor where
  "pluckThrows = (\<lambda>u t options. Inl (Exn ''SyntaxError''))"

definition finds :: "nat \<Rightarrow> Diagnostic list \<Rightarrow> string DiagnosticProducer" where
  "finds t ds = (\<lambda>doc ast. (t, Resolved ds))"

definition rejectsOn :: "string \<Rightarrow> nat \<Rightarrow> string DiagnosticProducer" where
  "rejectsOn graphql t =
     (\<lambda>doc ast. if ast = graphql then (t, Rejected (Exn ''rule failed'')) else (t, Resolved []))"

definition neverSettles :: "string DiagnosticProducer" where
  "neverSettles = (\<lambda>doc ast. (0, Pending))"

definition exampleDocument :: TextDocument where
  "exampleDocument =
     \<lparr>uri = ''file.js'', languageId = ''javascript'', version = 1, content = ''source''\<rparr>"

text \<open>
  A connection, collaborators whose network answers every object-info request with the
  given response, collaborators without a default org, collaborators whose entity-list
  fetch fails, and a state with a session. In \<open>quietPieces\<close> a first load of
  \<^verbatim>\<open>Account\<close> fails, the caches are reset, and two calls of the new session share one
  request in flight. In \<open>resetPieces\<close> the caches are reset while the first request is in
  flight, the new session sends a second one, and then the first one fails.
\<close>

definition exampleConnection :: Connection where
  "exampleConnection =
     \<lparr>getUsername = Some ''user@example.com'', baseUrl = ''https://example.my.salesforce.com''\<rparr>"

definition exampleEnv :: "exn + ObjectInfoRepresentation option \<Rightarrow> Env" where
  "exampleEnv response =
     \<lparr>targetOrg = Inr (Some ''myOrg''),
      aliasUsername = (\<lambda>org. Inr (Some ''user@example.com'')),
      createConnection = (\<lambda>username. Inr (exampleConnection\<lparr>getUsername := Some username\<rparr>)),
      describeGlobal = (\<lambda>conn. Inr [''Account'', ''Contact'']),
      request = (\<lambda>conn url. response),
      getWorkspaceDir = Inr ''/workspace'',
      stringifyEntities = concat,
      parseEntities = (\<lambda>s. Inr [s]),
      stringifyObjectInfo = apiName,
      parseObjectInfo = (\<lambda>s. Inr \<lparr>apiName = s, fieldTypes = []\<rparr>)\<rparr>"

definition noOrgEnv :: Env where
  "noOrgEnv = (exampleEnv (Inr None))\<lparr>targetOrg := Inr None\<rparr>"

definition connectedOrgUtils :: OrgUtils where
  "connectedOrgUtils =
     initialOrgUtils\<lparr>orgName := ''myOrg'', connection := Some exampleConnection,
       connectStatus := CONNECTED, entities := [''Account'', ''Contact'']\<rparr>"

definition timeout :: "exn + ObjectInfoRepresentation option" where
  "timeout = Inl (Exn ''ETIMEDOUT'')"






definition networkDownEnv :: Env where
  "networkDownEnv = (exampleEnv timeout)\<lparr>describeGlobal := (\<lambda>conn. Inl (Exn ''ENETDOWN''))\<rparr>"



section \<open>Properties of validateGraphql.ts\<close>

subsection \<open>Promise.all\<close>

lemma first_rejected_None:
  "first_rejected ps = None \<longleftrightarrow> (\<forall>p \<in> set ps. \<not> isRejected (snd p))"
proof (induction ps rule: first_rejected.induct)
qed (auto split: option.splits)

lemma fulfilled_values_Some:
  "fulfilled_values ps = Some vs \<longleftrightarrow> map snd ps = map Resolved vs"
proof (induction ps arbitrary: vs rule: fulfilled_values.induct)
  case 1 show ?case by auto
next
  case (2 t v ps) show ?case using 2 by (cases vs) auto
next
  case (3 t e ps) show ?case by (cases vs) auto
next
  case (4 t ps) show ?case by (cases vs) auto
qed

lemma Promise_all_Resolved:
  "Promise_all ps = Resolved vs \<longleftrightarrow> map snd ps = map Resolved vs"
proof
  assume "Promise_all ps = Resolved vs"
  then show "map snd ps = map Resolved vs"
    by (auto simp: Promise_all_def fulfilled_values_Some split: option.splits)
next
  assume m: "map snd ps = map Resolved vs"
  then have "\<forall>p \<in> set ps. \<not> isRejected (snd p)"
    by (metis (no_types, lifting) ex_map_conv isRejected.simps(1) list.set_map imageI)
  then have "first_rejected ps = None" by (simp add: first_rejected_None)
  moreover have "fulfilled_values ps = Some vs" using m by (simp add: fulfilled_values_Some)
  ultimately show "Promise_all ps = Resolved vs" by (simp add: Promise_all_def)
qed

lemma Promise_all_Rejected:
  "(\<exists>e. Promise_all ps = Rejected e) \<longleftrightarrow> (\<exists>p \<in> set ps. isRejected (snd p))"
  using first_rejected_None [of ps]
  by (auto simp: Promise_all_def split: option.splits)

lemma fulfilled_values_None:
  "fulfilled_values ps = None \<longleftrightarrow> (\<exists>p \<in> set ps. \<not> isResolved (snd p))"
proof (induction ps rule: fulfilled_values.induct)
qed auto

lemma Promise_all_Pending:
  "Promise_all ps = Pending \<longleftrightarrow>
     (\<forall>p \<in> set ps. \<not> isRejected (snd p)) \<and> (\<exists>p \<in> set ps. \<not> isResolved (snd p))"
  using first_rejected_None [of ps] fulfilled_values_None [of ps]
  by (auto simp: Promise_all_def split: option.splits)


subsection \<open>One query\<close>

lemma validateOneGraphQuery_not_Rejected:
  "validateOneGraphQuery parse ps doc g \<noteq> Rejected e"
  by (simp add: validateOneGraphQuery_def split: sum.splits outcome.splits)

lemma validateOneGraphQuery_parse_error:
  "parse g = Inl e \<Longrightarrow> validateOneGraphQuery parse ps doc g = Resolved []"
  by (simp add: validateOneGraphQuery_def)

lemma validateOneGraphQuery_rule_rejects:
  assumes "parse g = Inr ast" and "p \<in> set ps" and "isRejected (snd (p doc ast))"
  shows "validateOneGraphQuery parse ps doc g = Resolved []"
proof -
  have "\<exists>x \<in> set (map (\<lambda>producer. producer doc ast) ps). isRejected (snd x)"
    using assms(2,3) by auto
  then obtain e where "Promise_all (map (\<lambda>producer. producer doc ast) ps) = Rejected e"
    using Promise_all_Rejected by blast
  with assms(1) show ?thesis by (simp add: validateOneGraphQuery_def)
qed

lemma resolved_values:
  "map snd xs = map Resolved vs \<Longrightarrow>
   vs = map (\<lambda>x. case snd x of Resolved ds \<Rightarrow> ds | Rejected e \<Rightarrow> [] | Pending \<Rightarrow> []) xs"
proof (induction xs arbitrary: vs)
  case Nil then show ?case by simp
next
  case (Cons x xs) then show ?case by (cases vs) auto
qed

lemma validateOneGraphQuery_findings:
  assumes "validateOneGraphQuery parse ps (graphqlTextDocument q) (body q) = Resolved ds"
  shows "map (remap q) ds = fragmentFindings parse ps q"
proof (cases "parse (body q)")
  case (Inl e)
  with assms show ?thesis by (simp add: validateOneGraphQuery_def fragmentFindings_def)
next
  case (Inr ast)
  let ?outs = "map (\<lambda>producer. producer (graphqlTextDocument q) ast) ps"
  show ?thesis
  proof (cases "Promise_all ?outs")
    case (Resolved vs)
    then have m: "map snd ?outs = map Resolved vs" by (simp add: Promise_all_Resolved)
    have all: "list_all (\<lambda>p. isResolved (snd (p (graphqlTextDocument q) ast))) ps"
      unfolding list_all_iff
    proof
      fix p assume "p \<in> set ps"
      then have "snd (p (graphqlTextDocument q) ast) \<in> set (map snd ?outs)" by force
      with m show "isResolved (snd (p (graphqlTextDocument q) ast))" by auto
    qed
    have vs: "vs = map (\<lambda>p. ruleFindings p (graphqlTextDocument q) ast) ps"
      using resolved_values [OF m] by (simp add: ruleFindings_def comp_def)
    from assms Inr Resolved have "ds = concat vs" by (simp add: validateOneGraphQuery_def)
    with Inr all vs show ?thesis by (simp add: fragmentFindings_def)
  next
    case (Rejected e)
    then have "\<exists>x \<in> set ?outs. isRejected (snd x)" using Promise_all_Rejected by blast
    then obtain p where "p \<in> set ps" "isRejected (snd (p (graphqlTextDocument q) ast))" by auto
    then have "\<not> list_all (\<lambda>p. isResolved (snd (p (graphqlTextDocument q) ast))) ps"
      unfolding list_all_iff by (metis isRejected.elims(2) isResolved.simps(2))
    moreover from assms Inr Rejected have "ds = []" by (simp add: validateOneGraphQuery_def)
    ultimately show ?thesis using Inr by (simp add: fragmentFindings_def)
  next
    case Pending
    with assms Inr show ?thesis by (simp add: validateOneGraphQuery_def)
  qed
qed

subsection \<open>The two loops\<close>

lemma appendDiagnostics_take:
  "appendDiagnostics m lo co rs items =
     rs @ take (nat m - length rs) (map (\<lambda>i. updateDiagnosticOffset i lo co) items)"
proof (induction items arbitrary: rs)
  case Nil
  then show ?case by simp
next
  case (Cons item items)
  show ?case
  proof (cases "int (length rs) \<ge> m")
    case True
    then have "nat m - length rs = 0" by linarith
    with True show ?thesis by simp
  next
    case False
    then obtain k where k: "nat m - length rs = Suc k" by (cases "nat m - length rs") auto
    then have "nat m - Suc (length rs) = k" by simp
    with False k show ?thesis by (simp add: Cons.IH)
  qed
qed

lemma take_append_budget:
  "(rs @ take (n - length rs) xs) @ take (n - length (rs @ take (n - length rs) xs)) ys =
   rs @ take (n - length rs) (xs @ ys)"
  by (auto simp: min_def)

lemma validateQueries_take:
  "validateQueries parse ps m rs qs = Resolved ds \<Longrightarrow>
   ds = rs @ take (nat m - length rs) (concat (map (fragmentFindings parse ps) qs))"
proof (induction qs arbitrary: rs)
  case Nil
  then show ?case by simp
next
  case (Cons q qs)
  show ?case
  proof (cases "int (length rs) \<ge> m")
    case True
    then have "nat m - length rs = 0" by linarith
    with True Cons.prems show ?thesis by simp
  next
    case False
    let ?one = "validateOneGraphQuery parse ps (graphqlTextDocument q) (body q)"
    from False Cons.prems obtain items where one: "?one = Resolved items"
      by (cases ?one) (auto simp: Let_def)
    let ?rs' = "appendDiagnostics m (Location.line (locationOffset q) - 1)
                  (column (locationOffset q) + 1) rs items"
    from False Cons.prems one have "validateQueries parse ps m ?rs' qs = Resolved ds"
      by (simp add: Let_def)
    then have ds: "ds = ?rs' @ take (nat m - length ?rs')
                      (concat (map (fragmentFindings parse ps) qs))"
      by (rule Cons.IH)
    have rs': "?rs' = rs @ take (nat m - length rs) (fragmentFindings parse ps q)"
      using validateOneGraphQuery_findings [OF one]
      by (simp add: appendDiagnostics_take remap_def [abs_def])
    show ?thesis
      unfolding ds rs' using take_append_budget [of rs "nat m"] by simp
  qed
qed


lemma validateQueries_findings:
  assumes "validateQueries parse ps m [] qs = Resolved ds"
  shows "ds = documentFindings parse ps m qs"
  using validateQueries_take [OF assms] by (simp add: documentFindings_def)


subsection \<open>The cap\<close>



subsection \<open>Skipping a fragment\<close>

lemma validateQueries_full:
  "int (length rs) \<ge> m \<Longrightarrow> validateQueries parse ps m rs qs = Resolved rs"
  by (cases qs) simp_all

lemma appendDiagnostics_none: "appendDiagnostics m lo co rs [] = rs"
  by simp

lemma validateQueries_skip:
  assumes "validateOneGraphQuery parse ps (graphqlTextDocument q) (body q) = Resolved []"
  shows "validateQueries parse ps m rs (before @ q # after) =
         validateQueries parse ps m rs (before @ after)"
proof (induction before arbitrary: rs)
  case Nil
  show ?case
  proof (cases "int (length rs) \<ge> m")
    case True
    then show ?thesis by (simp add: validateQueries_full)
  next
    case False
    with assms show ?thesis by (simp add: Let_def)
  qed
next
  case (Cons b before)
  show ?case
    by (cases "validateOneGraphQuery parse ps (graphqlTextDocument b) (body b)")
       (simp_all add: Let_def Cons.IH)
qed

lemma validateGraphql_skip:
  assumes "validateOneGraphQuery parse ps (graphqlTextDocument q) (body q) = Resolved []"
    and "pluck (uri doc) (content doc) pluckOptions = Inr (before @ q # after)"
    and "pluck' (uri doc) (content doc) pluckOptions = Inr (before @ after)"
  shows "validateGraphql pluck parse ps doc m = validateGraphql pluck' parse ps doc m"
  using assms(2,3) validateQueries_skip [OF assms(1)]
  by (simp add: validateGraphql_def)

lemma validateQueries_not_Rejected:
  "validateQueries parse ps m rs qs \<noteq> Rejected e"
proof (induction qs arbitrary: rs)
  case Nil
  show ?case by simp
next
  case (Cons q qs)
  show ?case
    using Cons.IH validateOneGraphQuery_not_Rejected [of parse ps "graphqlTextDocument q" "body q"]
    by (cases "validateOneGraphQuery parse ps (graphqlTextDocument q) (body q)")
       (simp_all add: Let_def)
qed

lemma validateQueries_settles:
  assumes "\<forall>q \<in> set qs.
             validateOneGraphQuery parse ps (graphqlTextDocument q) (body q) \<noteq> Pending"
  shows "\<exists>ds. validateQueries parse ps m rs qs = Resolved ds"
  using assms
proof (induction qs arbitrary: rs)
  case Nil
  show ?case by simp
next
  case (Cons q qs)
  then obtain items where
    "validateOneGraphQuery parse ps (graphqlTextDocument q) (body q) = Resolved items"
    using validateOneGraphQuery_not_Rejected [of parse ps "graphqlTextDocument q" "body q"]
    by (cases "validateOneGraphQuery parse ps (graphqlTextDocument q) (body q)") auto
  with Cons show ?case by (simp add: Let_def)
qed

lemma validateOneGraphQuery_Pending:
  assumes "validateOneGraphQuery parse ps doc g = Pending"
  shows "\<exists>ast p. parse g = Inr ast \<and> p \<in> set ps \<and> snd (p doc ast) = Pending"
proof -
  from assms obtain ast where ast: "parse g = Inr ast"
    and "Promise_all (map (\<lambda>producer. producer doc ast) ps) = Pending"
    by (auto simp: validateOneGraphQuery_def split: sum.splits outcome.splits)
  then obtain x where "x \<in> set (map (\<lambda>producer. producer doc ast) ps)"
    "\<not> isRejected (snd x)" "\<not> isResolved (snd x)"
    unfolding Promise_all_Pending by blast
  then obtain p where "p \<in> set ps" "\<not> isRejected (snd (p doc ast))"
    "\<not> isResolved (snd (p doc ast))" by auto
  then have "p \<in> set ps \<and> snd (p doc ast) = Pending"
    by (cases "snd (p doc ast)") auto
  with ast show ?thesis by blast
qed

subsection \<open>Fragments that fail\<close>

text \<open>
  C3. For a fragment whose text does not parse, \<open>validateOneGraphQuery\<close> returns the empty
  list, and \<open>validateGraphql\<close> gives for the document what it gives for the document
  without that fragment: the fragments before and after it contribute as they would alone.
\<close>

theorem parse_failure_contributes_nothing:
  assumes "parse (body query) = Inl e"
    and "pluck (uri textDocument) (content textDocument) pluckOptions =
           Inr (before @ query # after)"
    and "pluck' (uri textDocument) (content textDocument) pluckOptions = Inr (before @ after)"
  shows "validateOneGraphQuery parse producers (graphqlTextDocument query) (body query) =
           Resolved [] \<and>
         validateGraphql pluck parse producers textDocument maxCount =
           validateGraphql pluck' parse producers textDocument maxCount"
proof -
  have one: "validateOneGraphQuery parse producers (graphqlTextDocument query) (body query) =
               Resolved []"
    using assms(1) by (simp add: validateOneGraphQuery_def)
  from one assms(2,3)
  have "validateGraphql pluck parse producers textDocument maxCount =
          validateGraphql pluck' parse producers textDocument maxCount"
    by (rule validateGraphql_skip)
  with one show ?thesis by simp
qed

theorem parse_failure_contributes_nothing_witness:
  "exampleParse (body (fragmentAt ''{'' 2 0)) = Inl (Exn ''Syntax Error'') \<and>
   validateOneGraphQuery exampleParse [finds 0 [finding 0 2 0 3]]
     (graphqlTextDocument (fragmentAt ''{'' 2 0)) (body (fragmentAt ''{'' 2 0)) = Resolved [] \<and>
   validateGraphql
     (plucks [fragmentAt ''{ a }'' 1 0, fragmentAt ''{'' 2 0, fragmentAt ''{ b }'' 3 4])
     exampleParse [finds 0 [finding 0 2 0 3]] exampleDocument 10 =
     Resolved [finding 0 3 0 4, finding 2 7 2 8] \<and>
   validateGraphql (plucks [fragmentAt ''{ a }'' 1 0, fragmentAt ''{ b }'' 3 4])
     exampleParse [finds 0 [finding 0 2 0 3]] exampleDocument 10 =
     Resolved [finding 0 3 0 4, finding 2 7 2 8]"
proof -
  have p: "exampleParse (body (fragmentAt ''{'' 2 0)) = Inl (Exn ''Syntax Error'')"
    by (simp add: exampleParse_def fragmentAt_def)
  have run: "validateGraphql (plucks [fragmentAt ''{ a }'' 1 0, fragmentAt ''{ b }'' 3 4])
     exampleParse [finds 0 [finding 0 2 0 3]] exampleDocument 10 =
     Resolved [finding 0 3 0 4, finding 2 7 2 8]"
    by (simp add: validateGraphql_def plucks_def fragmentAt_def exampleParse_def finds_def
        exampleDocument_def validateOneGraphQuery_def Promise_all_def finding_def
        updateDiagnosticOffset_def graphqlTextDocument_def Let_def)
  have a: "plucks [fragmentAt ''{ a }'' 1 0, fragmentAt ''{'' 2 0, fragmentAt ''{ b }'' 3 4]
             (uri exampleDocument) (content exampleDocument) pluckOptions =
           Inr ([fragmentAt ''{ a }'' 1 0] @ fragmentAt ''{'' 2 0 # [fragmentAt ''{ b }'' 3 4])"
    by (simp add: plucks_def)
  have b: "plucks [fragmentAt ''{ a }'' 1 0, fragmentAt ''{ b }'' 3 4]
             (uri exampleDocument) (content exampleDocument) pluckOptions =
           Inr ([fragmentAt ''{ a }'' 1 0] @ [fragmentAt ''{ b }'' 3 4])"
    by (simp add: plucks_def)
  have "validateOneGraphQuery exampleParse [finds 0 [finding 0 2 0 3]]
          (graphqlTextDocument (fragmentAt ''{'' 2 0)) (body (fragmentAt ''{'' 2 0)) =
          Resolved [] \<and>
        validateGraphql
          (plucks [fragmentAt ''{ a }'' 1 0, fragmentAt ''{'' 2 0, fragmentAt ''{ b }'' 3 4])
          exampleParse [finds 0 [finding 0 2 0 3]] exampleDocument 10 =
        validateGraphql (plucks [fragmentAt ''{ a }'' 1 0, fragmentAt ''{ b }'' 3 4])
          exampleParse [finds 0 [finding 0 2 0 3]] exampleDocument 10"
    using p a b by (rule parse_failure_contributes_nothing)
  with p run show ?thesis by simp
qed


text \<open>
  C7. When a fragment parses and the promise of one of the rules is rejected,
  \<open>validateOneGraphQuery\<close> returns the empty list for that fragment, whatever the other
  rules found. \<open>validateGraphql\<close> is not rejected, and gives for the document what it
  gives for the document without that fragment.
\<close>

theorem rule_rejection_empties_fragment:
  assumes "parse (body query) = Inr ast"
    and "producer \<in> set producers"
    and "snd (producer (graphqlTextDocument query) ast) = Rejected e"
    and "pluck (uri textDocument) (content textDocument) pluckOptions =
           Inr (before @ query # after)"
    and "pluck' (uri textDocument) (content textDocument) pluckOptions = Inr (before @ after)"
  shows "validateOneGraphQuery parse producers (graphqlTextDocument query) (body query) =
           Resolved [] \<and>
         validateGraphql pluck parse producers textDocument maxCount \<noteq> Rejected e' \<and>
         validateGraphql pluck parse producers textDocument maxCount =
           validateGraphql pluck' parse producers textDocument maxCount"
proof -
  from assms(3) have "isRejected (snd (producer (graphqlTextDocument query) ast))" by simp
  with assms(1,2)
  have one: "validateOneGraphQuery parse producers (graphqlTextDocument query) (body query) =
               Resolved []"
    by (rule validateOneGraphQuery_rule_rejects)
  from one assms(4,5)
  have same: "validateGraphql pluck parse producers textDocument maxCount =
          validateGraphql pluck' parse producers textDocument maxCount"
    by (rule validateGraphql_skip)
  have "validateGraphql pluck parse producers textDocument maxCount \<noteq> Rejected e'"
    using assms(4) validateQueries_not_Rejected [of parse producers maxCount "[]"]
    by (simp add: validateGraphql_def)
  with one same show ?thesis by simp
qed

theorem rule_rejection_empties_fragment_witness:
  "exampleParse (body (fragmentAt ''{ b }'' 2 0)) = Inr ''{ b }'' \<and>
   rejectsOn ''{ b }'' 1 \<in> set [finds 3 [finding 0 2 0 3], rejectsOn ''{ b }'' 1] \<and>
   snd (rejectsOn ''{ b }'' 1 (graphqlTextDocument (fragmentAt ''{ b }'' 2 0)) ''{ b }'') =
     Rejected (Exn ''rule failed'') \<and>
   validateOneGraphQuery exampleParse [finds 3 [finding 0 2 0 3], rejectsOn ''{ b }'' 1]
     (graphqlTextDocument (fragmentAt ''{ b }'' 2 0)) (body (fragmentAt ''{ b }'' 2 0)) =
     Resolved [] \<and>
   validateGraphql
     (plucks [fragmentAt ''{ a }'' 1 0, fragmentAt ''{ b }'' 2 0, fragmentAt ''{ c }'' 3 4])
     exampleParse [finds 3 [finding 0 2 0 3], rejectsOn ''{ b }'' 1] exampleDocument 10 =
     Resolved [finding 0 3 0 4, finding 2 7 2 8]"
proof -
  let ?rules = "[finds 3 [finding 0 2 0 3], rejectsOn ''{ b }'' 1]"
  have p: "exampleParse (body (fragmentAt ''{ b }'' 2 0)) = Inr ''{ b }''"
    by (simp add: exampleParse_def fragmentAt_def)
  have m: "rejectsOn ''{ b }'' 1 \<in> set ?rules" by simp
  have r: "snd (rejectsOn ''{ b }'' 1 (graphqlTextDocument (fragmentAt ''{ b }'' 2 0)) ''{ b }'') =
             Rejected (Exn ''rule failed'')"
    by (simp add: rejectsOn_def)
  have run: "validateGraphql (plucks [fragmentAt ''{ a }'' 1 0, fragmentAt ''{ c }'' 3 4])
     exampleParse ?rules exampleDocument 10 = Resolved [finding 0 3 0 4, finding 2 7 2 8]"
    by (simp add: validateGraphql_def plucks_def fragmentAt_def exampleParse_def finds_def
        rejectsOn_def exampleDocument_def validateOneGraphQuery_def Promise_all_def
        finding_def updateDiagnosticOffset_def graphqlTextDocument_def Let_def)
  have a: "plucks [fragmentAt ''{ a }'' 1 0, fragmentAt ''{ b }'' 2 0, fragmentAt ''{ c }'' 3 4]
             (uri exampleDocument) (content exampleDocument) pluckOptions =
           Inr ([fragmentAt ''{ a }'' 1 0] @ fragmentAt ''{ b }'' 2 0 # [fragmentAt ''{ c }'' 3 4])"
    by (simp add: plucks_def)
  have b: "plucks [fragmentAt ''{ a }'' 1 0, fragmentAt ''{ c }'' 3 4]
             (uri exampleDocument) (content exampleDocument) pluckOptions =
           Inr ([fragmentAt ''{ a }'' 1 0] @ [fragmentAt ''{ c }'' 3 4])"
    by (simp add: plucks_def)
  have "validateOneGraphQuery exampleParse ?rules
          (graphqlTextDocument (fragmentAt ''{ b }'' 2 0)) (body (fragmentAt ''{ b }'' 2 0)) =
          Resolved [] \<and>
        validateGraphql
          (plucks [fragmentAt ''{ a }'' 1 0, fragmentAt ''{ b }'' 2 0, fragmentAt ''{ c }'' 3 4])
          exampleParse ?rules exampleDocument 10 \<noteq> Rejected (Exn ''rule failed'') \<and>
        validateGraphql
          (plucks [fragmentAt ''{ a }'' 1 0, fragmentAt ''{ b }'' 2 0, fragmentAt ''{ c }'' 3 4])
          exampleParse ?rules exampleDocument 10 =
        validateGraphql (plucks [fragmentAt ''{ a }'' 1 0, fragmentAt ''{ c }'' 3 4])
          exampleParse ?rules exampleDocument 10"
    using p m r a b by (rule rule_rejection_empties_fragment)
  with p m r run show ?thesis by simp
qed

subsection \<open>The short circuit\<close>

text \<open>
  C5. With \<open>maxCount\<close> at most zero, or with no rule in the registry, \<open>validateGraphql\<close>
  returns the empty list whatever the extractor would do; the extractor is not called, since
  the result is the same for an extractor that throws.
\<close>

theorem validateGraphql_short_circuit:
  assumes "maxCount \<le> 0 \<or> producers = []"
  shows "validateGraphql pluck parse producers textDocument maxCount = Resolved []"
  using assms by (auto simp: validateGraphql_def)

theorem validateGraphql_short_circuit_witness:
  "validateGraphql pluckThrows exampleParse [finds 0 [finding 0 2 0 3]] exampleDocument 0 =
     Resolved [] \<and>
   validateGraphql pluckThrows exampleParse [finds 0 [finding 0 2 0 3]] exampleDocument (- 3) =
     Resolved [] \<and>
   validateGraphql pluckThrows exampleParse [] exampleDocument 10 = Resolved []"
  using validateGraphql_short_circuit [of 0 "[finds 0 [finding 0 2 0 3]]" pluckThrows
      exampleParse exampleDocument]
    validateGraphql_short_circuit [of "- 3" "[finds 0 [finding 0 2 0 3]]" pluckThrows
      exampleParse exampleDocument]
    validateGraphql_short_circuit [of 10 "[]" pluckThrows exampleParse exampleDocument]
  by simp

subsection \<open>The order of the diagnostics\<close>

text \<open>
  C6. A list returned by \<open>validateGraphql\<close> is \<open>documentFindings\<close>: the fragments in
  discovery order, within a fragment the rules in registry order, within a rule the order in
  which it emitted its findings, cut at the cap and never sorted. The ticks at which the
  promises of the rules settle have no part in it: in the witness the second rule settles
  before the first.
\<close>

theorem validateGraphql_order:
  assumes "pluck (uri textDocument) (content textDocument) pluckOptions = Inr queries"
    and "validateGraphql pluck parse producers textDocument maxCount = Resolved results"
  shows "results = documentFindings parse producers maxCount queries"
proof (cases "maxCount \<le> 0 \<or> length producers = 0")
  case True
  with assms(2) have "results = []" by (simp add: validateGraphql_def)
  moreover have "documentFindings parse producers maxCount queries = []"
  proof (cases "maxCount \<le> 0")
    case True
    then show ?thesis by (simp add: documentFindings_def)
  next
    case False
    with \<open>maxCount \<le> 0 \<or> length producers = 0\<close> have "producers = []" by simp
    then have "\<And>q. fragmentFindings parse producers q = []"
      by (simp add: fragmentFindings_def split: sum.splits)
    then show ?thesis by (simp add: documentFindings_def)
  qed
  ultimately show ?thesis by simp
next
  case False
  with assms have "validateQueries parse producers maxCount [] queries = Resolved results"
    by (simp add: validateGraphql_def)
  then show ?thesis by (rule validateQueries_findings)
qed


theorem validateGraphql_order_witness:
  "plucks [fragmentAt ''{ a }'' 1 0, fragmentAt ''{ b }'' 3 4]
     (uri exampleDocument) (content exampleDocument) pluckOptions =
     Inr [fragmentAt ''{ a }'' 1 0, fragmentAt ''{ b }'' 3 4] \<and>
   validateGraphql (plucks [fragmentAt ''{ a }'' 1 0, fragmentAt ''{ b }'' 3 4]) exampleParse
     [finds 5 [finding 0 2 0 3, finding 1 0 1 1], finds 1 [finding 0 6 0 7]] exampleDocument 5 =
     Resolved [finding 0 3 0 4, finding 1 0 1 1, finding 0 7 0 8,
               finding 2 7 2 8, finding 3 0 3 1] \<and>
   documentFindings exampleParse
     [finds 5 [finding 0 2 0 3, finding 1 0 1 1], finds 1 [finding 0 6 0 7]] 5
     [fragmentAt ''{ a }'' 1 0, fragmentAt ''{ b }'' 3 4] =
     [finding 0 3 0 4, finding 1 0 1 1, finding 0 7 0 8, finding 2 7 2 8, finding 3 0 3 1]"
proof -
  let ?rules = "[finds 5 [finding 0 2 0 3, finding 1 0 1 1], finds 1 [finding 0 6 0 7]]"
  let ?qs = "[fragmentAt ''{ a }'' 1 0, fragmentAt ''{ b }'' 3 4]"
  have a: "plucks ?qs (uri exampleDocument) (content exampleDocument) pluckOptions = Inr ?qs"
    by (simp add: plucks_def)
  have run: "validateGraphql (plucks ?qs) exampleParse ?rules exampleDocument 5 =
     Resolved [finding 0 3 0 4, finding 1 0 1 1, finding 0 7 0 8,
               finding 2 7 2 8, finding 3 0 3 1]"
    by (simp add: validateGraphql_def plucks_def fragmentAt_def exampleParse_def finds_def
        exampleDocument_def validateOneGraphQuery_def Promise_all_def
        finding_def updateDiagnosticOffset_def graphqlTextDocument_def Let_def)
  from validateGraphql_order [OF a run] show ?thesis using a run by simp
qed

subsection \<open>Remapping\<close>

text \<open>
  C8. \<open>updateDiagnosticOffset\<close> with line offset 0 and column offset 0 returns the
  diagnostic unchanged.
\<close>

theorem updateDiagnosticOffset_identity:
  "updateDiagnosticOffset diagnostic 0 0 = diagnostic"
  by (simp add: updateDiagnosticOffset_def Let_def)

text \<open>
  C4. \<open>validateGraphql\<close> returns the finding of a fragment remapped by
  \<open>updateDiagnosticOffset\<close> with the line and the column of the fragment's first
  character as offsets. For each endpoint, \<open>updateDiagnosticOffset\<close> adds the column
  offset to the column exactly when the line of the endpoint is 0, and adds the line offset
  to the line in every case; nothing else of the diagnostic changes. For a fragment that
  starts at line 5, column 10, the range from (0, 3) to (0, 8) becomes (5, 13) to (5, 18),
  and the range from (1, 2) to (1, 4) becomes (6, 2) to (6, 4), columns unchanged.
\<close>

theorem remap_rule:
  assumes "pluck (uri textDocument) (content textDocument) pluckOptions = Inr [query]"
    and "parse (body query) = Inr ast"
    and "producer (graphqlTextDocument query) ast = (t, Resolved [d])"
    and "0 < maxCount"
  shows "validateGraphql pluck parse [producer] textDocument maxCount =
           Resolved [updateDiagnosticOffset d (Position.line (fragmentStart query))
                       (character (fragmentStart query))] \<and>
         updateDiagnosticOffset d lineOffset columnOffset =
           d\<lparr>range' :=
               \<lparr>start =
                  \<lparr>Position.line = Position.line (start (range' d)) + lineOffset,
                   character =
                     (if Position.line (start (range' d)) = 0
                      then character (start (range' d)) + columnOffset
                      else character (start (range' d)))\<rparr>,
                end' =
                  \<lparr>Position.line = Position.line (end' (range' d)) + lineOffset,
                   character =
                     (if Position.line (end' (range' d)) = 0
                      then character (end' (range' d)) + columnOffset
                      else character (end' (range' d)))\<rparr>\<rparr>\<rparr>"
proof -
  have "validateGraphql pluck parse [producer] textDocument maxCount =
           Resolved [updateDiagnosticOffset d (Position.line (fragmentStart query))
                       (character (fragmentStart query))]"
    using assms
    by (simp add: validateGraphql_def validateOneGraphQuery_def Promise_all_def
        fragmentStart_def Let_def)
  then show ?thesis
    by (simp add: updateDiagnosticOffset_def Let_def)
qed

theorem remap_rule_witness:
  "fragmentStart (fragmentAt ''{ a }'' 6 9) = \<lparr>Position.line = 5, character = 10\<rparr> \<and>
   validateGraphql (plucks [fragmentAt ''{ a }'' 6 9]) exampleParse
     [finds 0 [finding 0 3 0 8]] exampleDocument 10 = Resolved [finding 5 13 5 18] \<and>
   validateGraphql (plucks [fragmentAt ''{ a }'' 6 9]) exampleParse
     [finds 0 [finding 1 2 1 4]] exampleDocument 10 = Resolved [finding 6 2 6 4] \<and>
   updateDiagnosticOffset (finding 0 3 0 8) 5 10 = finding 5 13 5 18 \<and>
   updateDiagnosticOffset (finding 1 2 1 4) 5 10 = finding 6 2 6 4"
proof -
  let ?q = "fragmentAt ''{ a }'' 6 9"
  have s: "fragmentStart ?q = \<lparr>Position.line = 5, character = 10\<rparr>"
    by (simp add: fragmentStart_def fragmentAt_def)
  have a: "plucks [?q] (uri exampleDocument) (content exampleDocument) pluckOptions = Inr [?q]"
    by (simp add: plucks_def)
  have p: "exampleParse (body ?q) = Inr ''{ a }''"
    by (simp add: exampleParse_def fragmentAt_def)
  have r1: "finds 0 [finding 0 3 0 8] (graphqlTextDocument ?q) ''{ a }'' =
              (0, Resolved [finding 0 3 0 8])"
    by (simp add: finds_def)
  have r2: "finds 0 [finding 1 2 1 4] (graphqlTextDocument ?q) ''{ a }'' =
              (0, Resolved [finding 1 2 1 4])"
    by (simp add: finds_def)
  have m: "(0::int) < 10" by simp
  have rule1: "validateGraphql (plucks [?q]) exampleParse
           [finds 0 [finding 0 3 0 8]] exampleDocument 10 =
           Resolved [updateDiagnosticOffset (finding 0 3 0 8)
                       (Position.line (fragmentStart ?q)) (character (fragmentStart ?q))] \<and>
         updateDiagnosticOffset (finding 0 3 0 8) 5 10 =
           (finding 0 3 0 8)\<lparr>range' :=
               \<lparr>start =
                  \<lparr>Position.line = Position.line (start (range' (finding 0 3 0 8))) + 5,
                   character =
                     (if Position.line (start (range' (finding 0 3 0 8))) = 0
                      then character (start (range' (finding 0 3 0 8))) + 10
                      else character (start (range' (finding 0 3 0 8))))\<rparr>,
                end' =
                  \<lparr>Position.line = Position.line (end' (range' (finding 0 3 0 8))) + 5,
                   character =
                     (if Position.line (end' (range' (finding 0 3 0 8))) = 0
                      then character (end' (range' (finding 0 3 0 8))) + 10
                      else character (end' (range' (finding 0 3 0 8))))\<rparr>\<rparr>\<rparr>"
    using a p r1 m by (rule remap_rule)
  have rule2: "validateGraphql (plucks [?q]) exampleParse
           [finds 0 [finding 1 2 1 4]] exampleDocument 10 =
           Resolved [updateDiagnosticOffset (finding 1 2 1 4)
                       (Position.line (fragmentStart ?q)) (character (fragmentStart ?q))] \<and>
         updateDiagnosticOffset (finding 1 2 1 4) 5 10 =
           (finding 1 2 1 4)\<lparr>range' :=
               \<lparr>start =
                  \<lparr>Position.line = Position.line (start (range' (finding 1 2 1 4))) + 5,
                   character =
                     (if Position.line (start (range' (finding 1 2 1 4))) = 0
                      then character (start (range' (finding 1 2 1 4))) + 10
                      else character (start (range' (finding 1 2 1 4))))\<rparr>,
                end' =
                  \<lparr>Position.line = Position.line (end' (range' (finding 1 2 1 4))) + 5,
                   character =
                     (if Position.line (end' (range' (finding 1 2 1 4))) = 0
                      then character (end' (range' (finding 1 2 1 4))) + 10
                      else character (end' (range' (finding 1 2 1 4))))\<rparr>\<rparr>\<rparr>"
    using a p r2 m by (rule remap_rule)
  have three: "updateDiagnosticOffset (finding 0 3 0 8) 5 10 = finding 5 13 5 18"
    using rule1 by (simp add: finding_def)
  have four: "updateDiagnosticOffset (finding 1 2 1 4) 5 10 = finding 6 2 6 4"
    using rule2 by (simp add: finding_def)
  have one: "validateGraphql (plucks [?q]) exampleParse
     [finds 0 [finding 0 3 0 8]] exampleDocument 10 = Resolved [finding 5 13 5 18]"
    using rule1 s three by simp
  have two: "validateGraphql (plucks [?q]) exampleParse
     [finds 0 [finding 1 2 1 4]] exampleDocument 10 = Resolved [finding 6 2 6 4]"
    using rule2 s four by simp
  from s one two three four show ?thesis by simp
qed

subsection \<open>What reaches the caller\<close>

text \<open>
  C2, as stated, fails on the code: the call of the extractor stands outside every
  \<^verbatim>\<open>try\<close>, so what the extractor throws rejects \<open>validateGraphql\<close>; and a rule whose
  promise never settles leaves \<open>validateGraphql\<close> waiting.
\<close>

theorem validateGraphql_throws_counterexample:
  "validateGraphql pluckThrows exampleParse [finds 0 [finding 0 3 0 8]] exampleDocument 10 =
     Rejected (Exn ''SyntaxError'') \<and>
   validateGraphql (plucks [fragmentAt ''{ a }'' 1 0]) exampleParse [neverSettles]
     exampleDocument 10 = Pending"
  by (simp add: validateGraphql_def pluckThrows_def plucks_def fragmentAt_def exampleParse_def
      finds_def neverSettles_def exampleDocument_def validateOneGraphQuery_def Promise_all_def
      graphqlTextDocument_def Let_def)

text \<open>
  C2, amended. When the extractor returns, and the promise of every rule settles on every
  fragment that parses, \<open>validateGraphql\<close> resolves to a list: for a document with no
  fragment, with fragments that all fail to parse, and with rules that are rejected. When
  the extractor throws, past the short circuit, \<open>validateGraphql\<close> is rejected with what
  it threw.
\<close>

theorem validateGraphql_resolves:
  "(pluck (uri textDocument) (content textDocument) pluckOptions = Inr queries \<and>
    (\<forall>query \<in> set queries. \<forall>producer \<in> set producers. \<forall>ast.
       parse (body query) = Inr ast \<longrightarrow>
       snd (producer (graphqlTextDocument query) ast) \<noteq> Pending) \<longrightarrow>
    (\<exists>results. validateGraphql pluck parse producers textDocument maxCount =
       Resolved results)) \<and>
   (0 < maxCount \<and> producers \<noteq> [] \<and>
    pluck (uri textDocument) (content textDocument) pluckOptions = Inl e \<longrightarrow>
    validateGraphql pluck parse producers textDocument maxCount = Rejected e)"
proof (intro conjI impI)
  assume h: "pluck (uri textDocument) (content textDocument) pluckOptions = Inr queries \<and>
    (\<forall>query \<in> set queries. \<forall>producer \<in> set producers. \<forall>ast.
       parse (body query) = Inr ast \<longrightarrow>
       snd (producer (graphqlTextDocument query) ast) \<noteq> Pending)"
  have "\<forall>q \<in> set queries.
          validateOneGraphQuery parse producers (graphqlTextDocument q) (body q) \<noteq> Pending"
  proof
    fix q assume q: "q \<in> set queries"
    show "validateOneGraphQuery parse producers (graphqlTextDocument q) (body q) \<noteq> Pending"
    proof
      assume "validateOneGraphQuery parse producers (graphqlTextDocument q) (body q) = Pending"
      then obtain ast p where "parse (body q) = Inr ast" "p \<in> set producers"
        "snd (p (graphqlTextDocument q) ast) = Pending"
        using validateOneGraphQuery_Pending by blast
      with h q show False by blast
    qed
  qed
  then obtain ds where "validateQueries parse producers maxCount [] queries = Resolved ds"
    using validateQueries_settles by blast
  with h show "\<exists>results. validateGraphql pluck parse producers textDocument maxCount =
       Resolved results"
    by (simp add: validateGraphql_def)
next
  assume "0 < maxCount \<and> producers \<noteq> [] \<and>
    pluck (uri textDocument) (content textDocument) pluckOptions = Inl e"
  then show "validateGraphql pluck parse producers textDocument maxCount = Rejected e"
    by (simp add: validateGraphql_def)
qed

theorem validateGraphql_resolves_witness:
  "validateGraphql (plucks [fragmentAt ''{'' 1 0, fragmentAt ''{ b }'' 2 0])
      exampleParse [finds 3 [finding 0 2 0 3], rejectsOn ''{ b }'' 1] exampleDocument 10 =
      Resolved [] \<and>
   validateGraphql (plucks []) exampleParse [finds 3 [finding 0 2 0 3]] exampleDocument 10 =
      Resolved [] \<and>
   validateGraphql pluckThrows exampleParse [finds 3 [finding 0 2 0 3]] exampleDocument 10 =
      Rejected (Exn ''SyntaxError'')"
proof -
  let ?qs = "[fragmentAt ''{'' 1 0, fragmentAt ''{ b }'' 2 0]"
  let ?rules = "[finds 3 [finding 0 2 0 3], rejectsOn ''{ b }'' 1]"
  have a: "plucks ?qs (uri exampleDocument) (content exampleDocument) pluckOptions = Inr ?qs"
    by (simp add: plucks_def)
  have s: "\<forall>query \<in> set ?qs. \<forall>producer \<in> set ?rules. \<forall>ast.
           exampleParse (body query) = Inr ast \<longrightarrow>
           snd (producer (graphqlTextDocument query) ast) \<noteq> Pending"
    by (simp add: finds_def rejectsOn_def)
  have t: "pluckThrows (uri exampleDocument) (content exampleDocument) pluckOptions =
             Inl (Exn ''SyntaxError'')"
    by (simp add: pluckThrows_def)
  have ex: "\<exists>results. validateGraphql (plucks ?qs) exampleParse ?rules exampleDocument 10 =
          Resolved results"
    using validateGraphql_resolves [of "plucks ?qs" exampleDocument ?qs ?rules exampleParse 10]
      a s by blast
  have one: "validateGraphql (plucks ?qs) exampleParse ?rules exampleDocument 10 = Resolved []"
    by (simp add: validateGraphql_def plucks_def fragmentAt_def exampleParse_def finds_def
        rejectsOn_def exampleDocument_def validateOneGraphQuery_def Promise_all_def
        graphqlTextDocument_def Let_def)
  have two: "validateGraphql (plucks []) exampleParse [finds 3 [finding 0 2 0 3]]
               exampleDocument 10 = Resolved []"
    by (simp add: validateGraphql_def plucks_def)
  have three: "validateGraphql pluckThrows exampleParse [finds 3 [finding 0 2 0 3]]
                 exampleDocument 10 = Rejected (Exn ''SyntaxError'')"
    using validateGraphql_resolves
      [of pluckThrows exampleDocument "[]" "[finds 3 [finding 0 2 0 3]]" exampleParse 10
          "Exn ''SyntaxError''"] t
    by simp
  from ex one two three show ?thesis by simp
qed

section \<open>Properties of orgUtils.ts\<close>

subsection \<open>What each function leaves alone\<close>

lemma objectInfoFolderPath_frame:
  "promisesOf (snd (objectInfoFolderPath env st)) = promisesOf st"
  "objectInfoInMemoCache (snd (objectInfoFolderPath env st)) = objectInfoInMemoCache st"
  "disk (snd (objectInfoFolderPath env st)) = disk st"
  by (simp_all add: objectInfoFolderPath_def promisesOf_def Let_def split: sum.splits)

lemma fetchObjectInfoFromDisk_frame:
  "promisesOf (snd (fetchObjectInfoFromDisk env name st)) = promisesOf st"
  "objectInfoInMemoCache (snd (fetchObjectInfoFromDisk env name st)) = objectInfoInMemoCache st"
  using objectInfoFolderPath_frame [of env st]
  by (auto simp: fetchObjectInfoFromDisk_def Let_def split: prod.splits sum.splits option.splits)

lemma getObjectInfoFromCache_frame:
  "promisesOf (snd (getObjectInfoFromCache env name st)) = promisesOf st"
  using fetchObjectInfoFromDisk_frame(1) [of env name st]
  by (auto simp: getObjectInfoFromCache_def promisesOf_def
      split: prod.splits sum.splits option.splits)

lemma getConnection_frame:
  "promisesOf (snd (getConnection env st)) = promisesOf st"
  "entities (snd (getConnection env st)) = entities st"
  by (auto simp: getConnection_def getDefaultUserName_def getDefaultOrg_def promisesOf_def
      split: prod.splits sum.splits option.splits)

lemma objectInfoResponseCallback_frame:
  "promisesOf (snd (objectInfoResponseCallback env name oi st)) = promisesOf st"
  using objectInfoFolderPath_frame(1)
    [of env "st\<lparr>objectInfoInMemoCache := (objectInfoInMemoCache st)(name \<mapsto> oi)\<rparr>"]
  by (auto simp: objectInfoResponseCallback_def promisesOf_def Let_def
      split: prod.splits sum.splits)


lemma checkAuthStatus_frame:
  "promisesOf (snd (checkAuthStatus env st)) = promisesOf st"
proof -
  obtain c st1 where c: "getConnection env st = (c, st1)" by (cases "getConnection env st")
  with getConnection_frame(1) [of env st] have f1: "promisesOf st1 = promisesOf st" by simp
  let ?st1 = "st1\<lparr>connectStatus := CONNECTED\<rparr>"
  obtain d st2 where d: "objectInfoFolderPath env ?st1 = (d, st2)"
    by (cases "objectInfoFolderPath env ?st1")
  with objectInfoFolderPath_frame(1) [of env ?st1] f1 have f2: "promisesOf st2 = promisesOf st"
    by (simp add: promisesOf_def)
  show ?thesis
    using c d f1 f2
    by (auto simp: checkAuthStatus_def promisesOf_def Let_def
        split: option.splits sum.splits)
qed


subsection \<open>What each piece does to the promises\<close>

lemma getObjectInfoLookup_cases:
  obtains (joined) "promisesOf (snd (getObjectInfoLookup env name st)) = promisesOf st"
      and "\<And>p. fst (getObjectInfoLookup env name st) = PromiseOf p \<Longrightarrow>
             objectInfoPromises st name = Some p"
    | (started) "objectInfoPromises st name = None"
      and "fst (getObjectInfoLookup env name st) = PromiseOf (promiseCount st)"
      and "promiseStore (snd (getObjectInfoLookup env name st)) =
             (promiseStore st)(promiseCount st \<mapsto>
                \<lparr>forObject = name, phase = AwaitingConnection\<rparr>)"
      and "objectInfoPromises (snd (getObjectInfoLookup env name st)) =
             (objectInfoPromises st)(name \<mapsto> promiseCount st)"
      and "promiseCount (snd (getObjectInfoLookup env name st)) = Suc (promiseCount st)"
      and "requests (snd (getObjectInfoLookup env name st)) = requests st"
proof -
  obtain c st1 where c: "getObjectInfoFromCache env name st = (c, st1)"
    by (cases "getObjectInfoFromCache env name st")
  with getObjectInfoFromCache_frame [of env name st]
  have f: "promiseStore st1 = promiseStore st" "objectInfoPromises st1 = objectInfoPromises st"
    "promiseCount st1 = promiseCount st" "requests st1 = requests st"
    by (simp_all add: promisesOf_def)
  show ?thesis
  proof (cases "c = Inr None \<and> objectInfoPromises st name = None")
    case True
    with c f have "objectInfoPromises st name = None"
      and "fst (getObjectInfoLookup env name st) = PromiseOf (promiseCount st)"
      and "promiseStore (snd (getObjectInfoLookup env name st)) =
             (promiseStore st)(promiseCount st \<mapsto>
                \<lparr>forObject = name, phase = AwaitingConnection\<rparr>)"
      and "objectInfoPromises (snd (getObjectInfoLookup env name st)) =
             (objectInfoPromises st)(name \<mapsto> promiseCount st)"
      and "promiseCount (snd (getObjectInfoLookup env name st)) = Suc (promiseCount st)"
      and "requests (snd (getObjectInfoLookup env name st)) = requests st"
      by (simp_all add: getObjectInfoLookup_def Let_def)
    then show ?thesis by (rule started)
  next
    case False
    with c f have "promisesOf (snd (getObjectInfoLookup env name st)) = promisesOf st"
      by (auto simp: getObjectInfoLookup_def promisesOf_def split: sum.splits option.splits)
    moreover from False c f
    have "\<And>p. fst (getObjectInfoLookup env name st) = PromiseOf p \<Longrightarrow>
             objectInfoPromises st name = Some p"
      by (auto simp: getObjectInfoLookup_def split: sum.splits option.splits)
    ultimately show ?thesis by (rule joined)
  qed
qed

lemma executorConnected_cases:
  obtains (idle) "promisesOf (executorConnected env p st) = promisesOf st"
   | (sent) pr conn where "promiseStore st p = Some pr" "phase pr = AwaitingConnection"
       "promiseStore (executorConnected env p st) =
          (promiseStore st)(p \<mapsto> pr\<lparr>phase := AwaitingResponse conn\<rparr>)"
       "objectInfoPromises (executorConnected env p st) = objectInfoPromises st"
       "promiseCount (executorConnected env p st) = promiseCount st"
       "requests (executorConnected env p st) =
          requests st @ [objectInfoUrl conn (forObject pr)]"
   | (dropped) pr where "promiseStore st p = Some pr" "phase pr = AwaitingConnection"
       "promiseStore (executorConnected env p st) =
          (promiseStore st)(p \<mapsto> pr\<lparr>phase := NeverSettles\<rparr>)"
       "objectInfoPromises (executorConnected env p st) = objectInfoPromises st"
       "promiseCount (executorConnected env p st) = promiseCount st"
       "requests (executorConnected env p st) = requests st"
proof (cases "promiseStore st p")
  case None
  then have "promisesOf (executorConnected env p st) = promisesOf st"
    by (simp add: executorConnected_def)
  then show ?thesis by (rule idle)
next
  case (Some pr)
  obtain c st1 where c: "getConnection env st = (c, st1)" by (cases "getConnection env st")
  with getConnection_frame [of env st]
  have f: "promiseStore st1 = promiseStore st" "objectInfoPromises st1 = objectInfoPromises st"
    "promiseCount st1 = promiseCount st" "requests st1 = requests st"
    by (simp_all add: promisesOf_def)
  show ?thesis
  proof (cases "phase pr = AwaitingConnection")
    case False
    with Some have "promisesOf (executorConnected env p st) = promisesOf st"
      by (cases "phase pr") (simp_all add: executorConnected_def)
    then show ?thesis by (rule idle)
  next
    case True
    show ?thesis
    proof (cases "\<exists>conn. c = Some conn \<and> forObject pr \<in> set (entities st1)")
      case True
      then obtain conn where conn: "c = Some conn" "forObject pr \<in> set (entities st1)" by blast
      from Some \<open>phase pr = AwaitingConnection\<close> c conn f
      have "promiseStore (executorConnected env p st) =
          (promiseStore st)(p \<mapsto> pr\<lparr>phase := AwaitingResponse conn\<rparr>)"
       "objectInfoPromises (executorConnected env p st) = objectInfoPromises st"
       "promiseCount (executorConnected env p st) = promiseCount st"
       "requests (executorConnected env p st) =
          requests st @ [objectInfoUrl conn (forObject pr)]"
        by (simp_all add: executorConnected_def)
      with Some \<open>phase pr = AwaitingConnection\<close> show ?thesis by (rule sent)
    next
      case False
      with Some \<open>phase pr = AwaitingConnection\<close> c f
      have "promiseStore (executorConnected env p st) =
          (promiseStore st)(p \<mapsto> pr\<lparr>phase := NeverSettles\<rparr>)"
       "objectInfoPromises (executorConnected env p st) = objectInfoPromises st"
       "promiseCount (executorConnected env p st) = promiseCount st"
       "requests (executorConnected env p st) = requests st"
        by (cases c; simp add: executorConnected_def)+
      with Some \<open>phase pr = AwaitingConnection\<close> show ?thesis by (rule dropped)
    qed
  qed
qed

lemma executorResponded_cases:
  obtains (idle) "promisesOf (executorResponded env p response st) = promisesOf st"
      and "\<And>pr conn. promiseStore st p = Some pr \<Longrightarrow> phase pr \<noteq> AwaitingResponse conn"
   | (settled) pr conn v where "promiseStore st p = Some pr" "phase pr = AwaitingResponse conn"
       "promiseStore (executorResponded env p response st) =
          (promiseStore st)(p \<mapsto> pr\<lparr>phase := Settled v\<rparr>)"
       "objectInfoPromises (executorResponded env p response st) =
          (objectInfoPromises st)(forObject pr := None)"
       "promiseCount (executorResponded env p response st) = promiseCount st"
       "requests (executorResponded env p response st) = requests st"
       "\<And>e. response = Inl e \<Longrightarrow> v = None"
proof (cases "\<exists>pr conn. promiseStore st p = Some pr \<and> phase pr = AwaitingResponse conn")
  case False
  then have "promisesOf (executorResponded env p response st) = promisesOf st"
    by (auto simp: executorResponded_def split: option.splits PromisePhase.splits)
  moreover from False
  have "\<And>pr conn. promiseStore st p = Some pr \<Longrightarrow> phase pr \<noteq> AwaitingResponse conn"
    by blast
  ultimately show ?thesis by (rule idle)
next
  case True
  then obtain pr conn where pr: "promiseStore st p = Some pr" "phase pr = AwaitingResponse conn"
    by blast
  define cb where "cb = (\<lambda>oi. objectInfoResponseCallback env (forObject pr) oi st)"
  have f: "\<And>oi. promiseStore (snd (cb oi)) = promiseStore st"
    "\<And>oi. objectInfoPromises (snd (cb oi)) = objectInfoPromises st"
    "\<And>oi. promiseCount (snd (cb oi)) = promiseCount st"
    "\<And>oi. requests (snd (cb oi)) = requests st"
    using objectInfoResponseCallback_frame [of env "forObject pr" _ st]
    by (simp_all add: promisesOf_def cb_def)
  have "\<exists>v. promiseStore (executorResponded env p response st) =
          (promiseStore st)(p \<mapsto> pr\<lparr>phase := Settled v\<rparr>) \<and>
       objectInfoPromises (executorResponded env p response st) =
          (objectInfoPromises st)(forObject pr := None) \<and>
       promiseCount (executorResponded env p response st) = promiseCount st \<and>
       requests (executorResponded env p response st) = requests st \<and>
       (\<forall>e. response = Inl e \<longrightarrow> v = None)"
  proof (cases response)
    case (Inl e)
    with pr show ?thesis by (intro exI [of _ None]) (simp add: executorResponded_def)
  next
    case (Inr r)
    show ?thesis
    proof (cases r)
      case None
      with Inr pr show ?thesis by (intro exI [of _ None]) (simp add: executorResponded_def)
    next
      case (Some oi)
      obtain x st' where x: "cb oi = (x, st')" by (cases "cb oi")
      with f [of oi] have "promiseStore st' = promiseStore st"
        "objectInfoPromises st' = objectInfoPromises st"
        "promiseCount st' = promiseCount st" "requests st' = requests st" by simp_all
      with Inr Some pr x show ?thesis
        by (cases x)
           (auto simp: executorResponded_def cb_def
              intro: exI [of _ None] exI [of _ "Some oi"])
    qed
  qed
  then obtain v where "promiseStore (executorResponded env p response st) =
          (promiseStore st)(p \<mapsto> pr\<lparr>phase := Settled v\<rparr>)"
       "objectInfoPromises (executorResponded env p response st) =
          (objectInfoPromises st)(forObject pr := None)"
       "promiseCount (executorResponded env p response st) = promiseCount st"
       "requests (executorResponded env p response st) = requests st"
       "\<And>e. response = Inl e \<Longrightarrow> v = None"
    by blast
  with pr show ?thesis by (rule settled)
qed


subsection \<open>The invariant\<close>












subsection \<open>No session, or a failed request\<close>

lemma runPromise_network_down:
  assumes "\<forall>conn url. \<exists>e. request env conn url = Inl e"
  shows "requests (runPromise env p st) = requests st \<or>
         promiseOutcome (runPromise env p st) p = Resolved None"
proof -
  let ?st1 = "executorConnected env p st"
  have step: "\<And>pr conn. promiseStore ?st1 p = Some pr \<Longrightarrow> phase pr = AwaitingResponse conn \<Longrightarrow>
          promiseOutcome (runPromise env p st) p = Resolved None"
  proof -
    fix pr conn
    assume pr: "promiseStore ?st1 p = Some pr" "phase pr = AwaitingResponse conn"
    from assms obtain e where e: "request env conn (objectInfoUrl conn (forObject pr)) = Inl e"
      by blast
    with pr have run: "runPromise env p st = executorResponded env p (Inl e) ?st1"
      by (simp add: runPromise_def Let_def)
    show "promiseOutcome (runPromise env p st) p = Resolved None"
    proof (cases rule: executorResponded_cases
        [where env = env and p = p and response = "Inl e" and st = ?st1])
      case idle
      with pr show ?thesis by blast
    next
      case (settled pr' conn' v)
      then show ?thesis unfolding run by (simp add: promiseOutcome_def)
    qed
  qed
  show ?thesis
  proof (cases "\<exists>pr conn. promiseStore ?st1 p = Some pr \<and> phase pr = AwaitingResponse conn")
    case True
    with step show ?thesis by blast
  next
    case False
    then have same: "runPromise env p st = ?st1"
      by (auto simp: runPromise_def Let_def split: option.splits PromisePhase.splits)
    show ?thesis
    proof (cases rule: executorConnected_cases [where env = env and p = p and st = st])
      case idle
      with same show ?thesis by (simp add: promisesOf_def)
    next
      case (sent pr conn)
      with False show ?thesis by auto
    next
      case (dropped pr)
      with same show ?thesis by simp
    qed
  qed
qed

text \<open>
  Where the call does resolve to \<^verbatim>\<open>undefined\<close>: when the status is
  \<open>DISCONNECTED\<close>, or it is \<open>UNKNOWN\<close> and \<open>getConnection\<close> gives no connection;
  and when the network fails every request and the call sent one.
\<close>

lemma getObjectInfo_resolves_undefined:
  "(connectStatus st = DISCONNECTED \<or>
      connectStatus st = UNKNOWN \<and> fst (getConnection env st) = None \<longrightarrow>
    fst (getObjectInfo env objectApiName st) = Resolved None) \<and>
   ((\<forall>conn url. \<exists>e. request env conn url = Inl e) \<and>
    requests (snd (getObjectInfo env objectApiName st)) \<noteq> requests st \<longrightarrow>
    fst (getObjectInfo env objectApiName st) = Resolved None)"
proof (intro conjI impI)
  assume "connectStatus st = DISCONNECTED \<or>
      connectStatus st = UNKNOWN \<and> fst (getConnection env st) = None"
  then have "fst (checkAuthStatus env st) = Resolved DISCONNECTED"
    by (auto simp: checkAuthStatus_def split: prod.splits)
  then show "fst (getObjectInfo env objectApiName st) = Resolved None"
    by (auto simp: getObjectInfo_def split: prod.splits)
next
  assume h: "(\<forall>conn url. \<exists>e. request env conn url = Inl e) \<and>
    requests (snd (getObjectInfo env objectApiName st)) \<noteq> requests st"
  obtain a st1 where a: "checkAuthStatus env st = (a, st1)" by (cases "checkAuthStatus env st")
  with checkAuthStatus_frame [of env st] have r1: "requests st1 = requests st"
    by (simp add: promisesOf_def)
  obtain r st2 where r: "getObjectInfoLookup env objectApiName st1 = (r, st2)"
    by (cases "getObjectInfoLookup env objectApiName st1")
  have r2: "requests st2 = requests st"
    using r r1
    by (cases rule: getObjectInfoLookup_cases
          [where env = env and name = objectApiName and st = st1])
       (simp_all add: promisesOf_def)
  show "fst (getObjectInfo env objectApiName st) = Resolved None"
  proof (cases "a = Resolved CONNECTED")
    case False
    with a r1 h show ?thesis
      by (cases a) (auto simp: getObjectInfo_def)
  next
    case True
    show ?thesis
    proof (cases r)
      case (Value v)
      with True a r r2 h show ?thesis by (simp add: getObjectInfo_def)
    next
      case (Thrown e)
      with True a r r2 h show ?thesis by (simp add: getObjectInfo_def)
    next
      case (PromiseOf p)
      with True a r have g: "getObjectInfo env objectApiName st =
          (promiseOutcome (runPromise env p st2) p, runPromise env p st2)"
        by (simp add: getObjectInfo_def Let_def)
      from h have "\<forall>conn url. \<exists>e. request env conn url = Inl e" by simp
      from runPromise_network_down [OF this, of p st2] g h r2 show ?thesis by auto
    qed
  qed
qed


lemma getObjectInfo_resolves_undefined_example:
  "connectStatus initialOrgUtils = UNKNOWN \<and>
   fst (getConnection noOrgEnv initialOrgUtils) = None \<and>
   fst (getObjectInfo noOrgEnv ''Account'' initialOrgUtils) = Resolved None \<and>
   requests (snd (getObjectInfo (exampleEnv timeout) ''Account'' initialOrgUtils)) =
     [''https://example.my.salesforce.com/ui-api/object-info/Account''] \<and>
   fst (getObjectInfo (exampleEnv timeout) ''Account'' initialOrgUtils) = Resolved None"
proof -
  have u: "connectStatus initialOrgUtils = UNKNOWN" by (simp add: initialOrgUtils_def)
  have c: "fst (getConnection noOrgEnv initialOrgUtils) = None"
    by (simp add: getConnection_def getDefaultUserName_def getDefaultOrg_def noOrgEnv_def
        exampleEnv_def initialOrgUtils_def)
  have down: "\<forall>conn url. \<exists>e. request (exampleEnv timeout) conn url = Inl e"
    by (simp add: exampleEnv_def timeout_def)
  have sent: "requests (snd (getObjectInfo (exampleEnv timeout) ''Account'' initialOrgUtils)) =
     [''https://example.my.salesforce.com/ui-api/object-info/Account'']"
    by (simp add: getObjectInfo_def checkAuthStatus_def getConnection_def
        getDefaultUserName_def getDefaultOrg_def objectInfoFolderPath_def joinPath_def
        getObjectInfoLookup_def getObjectInfoFromCache_def fetchObjectInfoFromDisk_def
        runPromise_def executorConnected_def executorResponded_def objectInfoUrl_def
        promiseOutcome_def exampleEnv_def exampleConnection_def timeout_def
        initialOrgUtils_def sfFolder_def objectInfoFolder_def entityListFileName_def Let_def)
  then have grew: "requests (snd (getObjectInfo (exampleEnv timeout) ''Account'' initialOrgUtils))
      \<noteq> requests initialOrgUtils"
    by (simp add: initialOrgUtils_def)
  from getObjectInfo_resolves_undefined [of initialOrgUtils noOrgEnv "''Account''"] u c
  have one: "fst (getObjectInfo noOrgEnv ''Account'' initialOrgUtils) = Resolved None" by blast
  from getObjectInfo_resolves_undefined [of initialOrgUtils "exampleEnv timeout" "''Account''"] down grew
  have two: "fst (getObjectInfo (exampleEnv timeout) ''Account'' initialOrgUtils) = Resolved None"
    by blast
  from u c one sent two show ?thesis by simp
qed


subsection \<open>Missing metadata that does not resolve to undefined\<close>

text \<open>
  C9 says that \<open>getObjectInfo\<close> resolves to \<^verbatim>\<open>undefined\<close> rather than rejecting, for
  every object name, when the metadata source is unavailable. The code does not. With the
  network down and a default org whose connection can be created, the entity-list fetch in
  \<open>checkAuthStatus\<close> fails outside any \<^verbatim>\<open>try\<close>: the first call is rejected, the
  status stays \<open>CONNECTED\<close> with an empty entity list, and the next call never settles.
  With a session, an object that is not in the entity list is never requested, and the
  executor, which has no \<^verbatim>\<open>else\<close> branch, ends without resolving the promise: the call
  never settles, and the promise stays in \<open>objectInfoPromises\<close>.
\<close>

theorem getObjectInfo_unavailable_failures:
  "fst (getObjectInfo networkDownEnv ''Account'' initialOrgUtils) = Rejected (Exn ''ENETDOWN'') \<and>
   connectStatus (snd (getObjectInfo networkDownEnv ''Account'' initialOrgUtils)) = CONNECTED \<and>
   fst (getObjectInfo networkDownEnv ''Account''
          (snd (getObjectInfo networkDownEnv ''Account'' initialOrgUtils))) = Pending \<and>
   fst (getObjectInfo (exampleEnv timeout) ''Lead'' connectedOrgUtils) = Pending \<and>
   objectInfoPromises (snd (getObjectInfo (exampleEnv timeout) ''Lead'' connectedOrgUtils))
     ''Lead'' = Some 0 \<and>
   requests (snd (getObjectInfo (exampleEnv timeout) ''Lead'' connectedOrgUtils)) = []"
  by (simp add: getObjectInfo_def checkAuthStatus_def getConnection_def
      getDefaultUserName_def getDefaultOrg_def objectInfoFolderPath_def joinPath_def
      getObjectInfoLookup_def getObjectInfoFromCache_def fetchObjectInfoFromDisk_def
      runPromise_def executorConnected_def executorResponded_def objectInfoUrl_def
      promiseOutcome_def exampleEnv_def exampleConnection_def timeout_def networkDownEnv_def
      initialOrgUtils_def connectedOrgUtils_def sfFolder_def objectInfoFolder_def
      entityListFileName_def Let_def)

subsection \<open>One request in flight for each object\<close>







end
